theory Spec2Isabelle
  imports Main
begin

section \<open>Strings of the script\<close>

text \<open>
  The script \<^verbatim>\<open>finish_remaining_prs.py\<close> works on the text that \<^verbatim>\<open>git log --oneline\<close>
  prints. Text is a \<open>string\<close>; its ASCII characters are interpreted (case, whitespace),
  every character above 127 is opaque: it has no case and is no whitespace.
\<close>

definition isspace :: "char \<Rightarrow> bool" where
  \<comment> \<open>\<^verbatim>\<open>str.isspace\<close> on one ASCII character: TAB, LF, VT, FF, CR, FS, GS, RS, US, space.\<close>
  "isspace c = (let n = (of_char c :: nat) in (9 \<le> n \<and> n \<le> 13) \<or> (28 \<le> n \<and> n \<le> 32))"

definition lower_chr :: "char \<Rightarrow> char" where
  "lower_chr c = (let n = (of_char c :: nat) in if 65 \<le> n \<and> n \<le> 90 then char_of (n + 32) else c)"

definition lower :: "string \<Rightarrow> string" where
  \<comment> \<open>\<^verbatim>\<open>str.lower()\<close>\<close>
  "lower s = map lower_chr s"

fun startswith :: "string \<Rightarrow> string \<Rightarrow> bool" where
  "startswith s [] = True"
| "startswith [] (p # ps) = False"
| "startswith (c # cs) (p # ps) = (c = p \<and> startswith cs ps)"

fun contains :: "string \<Rightarrow> string \<Rightarrow> bool" where
  \<comment> \<open>\<^verbatim>\<open>p in s\<close> on two strings\<close>
  "contains [] p = (p = [])"
| "contains (c # cs) p = (startswith (c # cs) p \<or> contains cs p)"

definition strip :: "string \<Rightarrow> string" where
  \<comment> \<open>\<^verbatim>\<open>str.strip()\<close>\<close>
  "strip s = rev (dropWhile isspace (rev (dropWhile isspace s)))"

fun split_sep :: "char \<Rightarrow> string \<Rightarrow> string \<Rightarrow> string list" where
  \<comment> \<open>\<^verbatim>\<open>str.split(sep)\<close> for a separator of one character; \<open>cur\<close> is the piece being read\<close>
  "split_sep sep cur [] = [cur]"
| "split_sep sep cur (c # cs) =
     (if c = sep then cur # split_sep sep [] cs else split_sep sep (cur @ [c]) cs)"

fun split_ws :: "string \<Rightarrow> string \<Rightarrow> string list" where
  \<comment> \<open>\<^verbatim>\<open>str.split()\<close>: runs of whitespace separate, no empty token; \<open>cur\<close> is the token being read\<close>
  "split_ws cur [] = (if cur = [] then [] else [cur])"
| "split_ws cur (c # cs) =
     (if isspace c then (if cur = [] then split_ws [] cs else cur # split_ws [] cs)
      else split_ws (cur @ [c]) cs)"

definition split :: "string \<Rightarrow> string list" where
  "split s = split_ws [] s"

definition lines_of :: "string \<Rightarrow> string list" where
  \<comment> \<open>\<^verbatim>\<open>result.stdout.strip().split('\n')\<close>\<close>
  "lines_of out = split_sep (CHR 0x0A) [] (strip out)"

section \<open>Commit selection\<close>

datatype exn = TimeoutExpired | IndexError | FileNotFoundError

definition has_keyword :: "string \<Rightarrow> bool" where
  \<comment> \<open>\<^verbatim>\<open>any(keyword in commit.lower() for keyword in ['test', 'feat:', 'add'])\<close>\<close>
  "has_keyword commit = list_ex (\<lambda>keyword. contains (lower commit) keyword) [''test'', ''feat:'', ''add'']"

definition not_excluded :: "string \<Rightarrow> bool" where
  \<comment> \<open>\<^verbatim>\<open>'cargo.lock' not in commit.lower() and 'format' not in commit.lower()\<close>\<close>
  "not_excluded commit = (\<not> contains (lower commit) ''cargo.lock'' \<and> \<not> contains (lower commit) ''format'')"

definition first_token :: "string \<Rightarrow> exn + string" where
  \<comment> \<open>\<^verbatim>\<open>commit.split()[0]\<close>\<close>
  "first_token commit = (case split commit of [] \<Rightarrow> Inl IndexError | t # _ \<Rightarrow> Inr t)"

fun select_commit :: "string list \<Rightarrow> exn + string option" where
  \<comment> \<open>the loop of lines 56 to 61; \<open>None\<close> is Python's \<^verbatim>\<open>None\<close>\<close>
  "select_commit [] = Inr None"
| "select_commit (commit # commits) =
     (if has_keyword commit then
        (if not_excluded commit then
           (case first_token commit of Inl e \<Rightarrow> Inl e | Inr t \<Rightarrow> Inr (Some t))
         else select_commit commits)
      else select_commit commits)"

section \<open>External commands and the console\<close>

text \<open>
  What an external command does is not decided by the script: a \<open>world\<close> says how the
  \<open>k\<close>-th command spawned, with command line \<open>c\<close>, behaves (how long it runs and what
  it returns), and which directories exist. Every command finishes after a finite time.
\<close>

record proc =
  elapsed :: nat
  returncode :: int
  stdout :: string
  stderr :: string

record world =
  respond :: "nat \<Rightarrow> string \<Rightarrow> proc"
  is_dir :: "string \<Rightarrow> bool"

datatype message =
    Executed string      \<comment> \<open>line 11\<close>
  | Output string        \<comment> \<open>line 13\<close>
  | Errors string        \<comment> \<open>line 15\<close>
  | TimedOut string      \<comment> \<open>line 18\<close>
  | Banner               \<comment> \<open>line 23\<close>
  | Repairing string     \<comment> \<open>line 37\<close>
  | Searching            \<comment> \<open>line 45\<close>
  | Available            \<comment> \<open>line 51\<close>
  | Listed string        \<comment> \<open>line 53\<close>
  | Selected string      \<comment> \<open>line 64\<close>
  | PickOk               \<comment> \<open>line 66\<close>
  | PickConflict         \<comment> \<open>line 68\<close>
  | ResolveOk            \<comment> \<open>line 73\<close>
  | ResolveFailed        \<comment> \<open>line 75\<close>
  | NoCommit             \<comment> \<open>line 79\<close>
  | Replacing            \<comment> \<open>line 83\<close>
  | Pushing              \<comment> \<open>line 88\<close>
  | Repaired string      \<comment> \<open>line 90\<close>
  | PushFailed string    \<comment> \<open>line 92\<close>
  | Done                 \<comment> \<open>line 98\<close>

datatype effect =
    Spawn string "nat option"   \<comment> \<open>a command line handed to the shell, with its timeout\<close>
  | Print message
  | Chdir string

type_synonym 'a action = "effect list \<Rightarrow> (exn + 'a) \<times> effect list"

fun spawned :: "effect list \<Rightarrow> (string \<times> nat option) list" where
  "spawned [] = []"
| "spawned (Spawn c t # es) = (c, t) # spawned es"
| "spawned (Print m # es) = spawned es"
| "spawned (Chdir d # es) = spawned es"

definition commands :: "effect list \<Rightarrow> string list" where
  "commands es = map fst (spawned es)"

definition return :: "'a \<Rightarrow> 'a action" where
  "return x = (\<lambda>s. (Inr x, s))"

definition lift :: "exn + 'a \<Rightarrow> 'a action" where
  \<comment> \<open>a computation without effect: its value, or the exception it raises\<close>
  "lift r = (\<lambda>s. (r, s))"

definition and_then :: "'a action \<Rightarrow> ('a \<Rightarrow> 'b action) \<Rightarrow> 'b action" where
  "and_then m f = (\<lambda>s. case m s of (Inl e, s') \<Rightarrow> (Inl e, s') | (Inr x, s') \<Rightarrow> f x s')"

definition print :: "message \<Rightarrow> unit action" where
  "print m = (\<lambda>s. (Inr (), s @ [Print m]))"

definition subprocess_run :: "world \<Rightarrow> string \<Rightarrow> nat option \<Rightarrow> proc action" where
  \<comment> \<open>\<^verbatim>\<open>subprocess.run(cmd, shell=True, capture_output=True, text=True, timeout=...)\<close>\<close>
  "subprocess_run w cmd timeout =
     (\<lambda>s. let p = respond w (length (spawned s)) cmd; s' = s @ [Spawn cmd timeout]
          in case timeout of
               None \<Rightarrow> (Inr p, s')
             | Some t \<Rightarrow> if t < elapsed p then (Inl TimeoutExpired, s') else (Inr p, s'))"

definition os_chdir :: "world \<Rightarrow> string \<Rightarrow> unit action" where
  "os_chdir w d = (\<lambda>s. if is_dir w d then (Inr (), s @ [Chdir d]) else (Inl FileNotFoundError, s))"

definition run_cmd :: "world \<Rightarrow> string \<Rightarrow> bool action" where
  "run_cmd w cmd =
     (\<lambda>s. case subprocess_run w cmd (Some 30) s of
            (Inr result, s1) \<Rightarrow>
              and_then (print (Executed cmd)) (\<lambda>_.
              and_then (if stdout result \<noteq> [] then print (Output (strip (stdout result))) else return ()) (\<lambda>_.
              and_then (if stderr result \<noteq> [] then print (Errors (strip (stderr result))) else return ()) (\<lambda>_.
              return (returncode result = 0)))) s1
          | (Inl TimeoutExpired, s1) \<Rightarrow> and_then (print (TimedOut cmd)) (\<lambda>_. return False) s1
          | (Inl e, s1) \<Rightarrow> (Inl e, s1))"

section \<open>The driver\<close>

definition remaining_branches :: "(string \<times> string) list" where
  "remaining_branches =
     [(''feature/add-server-components-tests'', ''7c50378''),
      (''feature/add-integration-tests'', ''69f2d0a'')]"

fun print_commits :: "string list \<Rightarrow> unit action" where
  \<comment> \<open>lines 52 and 53\<close>
  "print_commits [] = return ()"
| "print_commits (commit # commits) = and_then (print (Listed commit)) (\<lambda>_. print_commits commits)"

definition truthy :: "string option \<Rightarrow> bool" where
  \<comment> \<open>\<^verbatim>\<open>if test_commit:\<close>\<close>
  "truthy v = (case v of None \<Rightarrow> False | Some t \<Rightarrow> t \<noteq> [])"

definition replay :: "world \<Rightarrow> string list \<Rightarrow> bool action" where
  \<comment> \<open>lines 55 to 80; the result is \<open>False\<close> where the source leaves through \<^verbatim>\<open>continue\<close>\<close>
  "replay w commits =
     and_then (lift (select_commit commits)) (\<lambda>test_commit.
       if truthy test_commit then
         and_then (print (Selected (the test_commit))) (\<lambda>_.
         and_then (run_cmd w (''git cherry-pick '' @ the test_commit)) (\<lambda>picked.
           if picked then and_then (print PickOk) (\<lambda>_. return True)
           else
             and_then (print PickConflict) (\<lambda>_.
             and_then (run_cmd w ''git checkout --theirs Cargo.lock || true'') (\<lambda>_.
             and_then (run_cmd w ''git add Cargo.lock || true'') (\<lambda>_.
             and_then (run_cmd w ''git cherry-pick --continue'') (\<lambda>continued.
               if continued then and_then (print ResolveOk) (\<lambda>_. return True)
               else
                 and_then (print ResolveFailed) (\<lambda>_.
                 and_then (run_cmd w ''git cherry-pick --abort'') (\<lambda>_.
                 return False))))))))
       else and_then (print NoCommit) (\<lambda>_. return False))"

definition publish :: "world \<Rightarrow> string \<Rightarrow> string \<Rightarrow> unit action" where
  \<comment> \<open>lines 82 to 96\<close>
  "publish w branch_name clean_branch =
     and_then (print Replacing) (\<lambda>_.
     and_then (run_cmd w (''git checkout '' @ branch_name)) (\<lambda>_.
     and_then (run_cmd w (''git reset --hard '' @ clean_branch)) (\<lambda>_.
     and_then (print Pushing) (\<lambda>_.
     and_then (run_cmd w (''git push --force origin '' @ branch_name)) (\<lambda>pushed.
     and_then (if pushed then print (Repaired branch_name) else print (PushFailed branch_name)) (\<lambda>_.
     and_then (run_cmd w (''git branch -D '' @ clean_branch)) (\<lambda>_.
     and_then (run_cmd w ''git checkout main'') (\<lambda>_.
     return ()))))))))"

definition log_command :: "string \<Rightarrow> string" where
  "log_command branch_name = ''git log --oneline origin/'' @ branch_name @ '' | head -10''"

definition repair :: "world \<Rightarrow> string \<times> string \<Rightarrow> unit action" where
  \<comment> \<open>the body of the loop over the branches, lines 37 to 96\<close>
  "repair w pair =
     (case pair of (branch_name, commit_hash) \<Rightarrow>
        let clean_branch = branch_name @ ''-clean'' in
        and_then (print (Repairing branch_name)) (\<lambda>_.
        and_then (run_cmd w (''git branch -D '' @ clean_branch @ '' 2>/dev/null || true'')) (\<lambda>_.
        and_then (run_cmd w (''git checkout -b '' @ clean_branch)) (\<lambda>_.
        and_then (print Searching) (\<lambda>_.
        and_then (subprocess_run w (log_command branch_name) None) (\<lambda>result.
          if returncode result = 0 then
            and_then (print Available) (\<lambda>_.
            and_then (print_commits (lines_of (stdout result))) (\<lambda>_.
            and_then (replay w (lines_of (stdout result))) (\<lambda>replayed.
              if replayed then publish w branch_name clean_branch else return ())))
          else publish w branch_name clean_branch))))))"

fun repair_each :: "world \<Rightarrow> (string \<times> string) list \<Rightarrow> unit action" where
  \<comment> \<open>the loop of line 36\<close>
  "repair_each w [] = return ()"
| "repair_each w (pair # pairs) = and_then (repair w pair) (\<lambda>_. repair_each w pairs)"

definition driver :: "world \<Rightarrow> (string \<times> string) list \<Rightarrow> unit action" where
  \<comment> \<open>\<^verbatim>\<open>main\<close>, with the table of line 26 as a parameter\<close>
  "driver w branches =
     and_then (print Banner) (\<lambda>_.
     and_then (os_chdir w ''/workspace'') (\<lambda>_.
     and_then (run_cmd w ''git checkout main'') (\<lambda>_.
     and_then (repair_each w branches) (\<lambda>_.
     print Done))))"

definition main :: "world \<Rightarrow> unit action" where
  "main w = driver w remaining_branches"


section \<open>Vocabulary of the statements\<close>

definition candidate :: "string \<Rightarrow> bool" where
  \<comment> \<open>the two tests of lines 58 and 59 together, on the whole line as the loop applies them\<close>
  "candidate commit = (has_keyword commit \<and> not_excluded commit)"

definition succeeds :: "world \<Rightarrow> nat \<Rightarrow> string \<Rightarrow> bool" where
  \<comment> \<open>the \<open>k\<close>-th command, \<open>c\<close>, ends within the 30 units and with exit code 0\<close>
  "succeeds w k c = (elapsed (respond w k c) \<le> 30 \<and> returncode (respond w k c) = 0)"

definition report :: "world \<Rightarrow> nat \<Rightarrow> string \<Rightarrow> effect list" where
  \<comment> \<open>what \<open>run_cmd\<close> writes to the console for the \<open>k\<close>-th command\<close>
  "report w k c =
     (let p = respond w k c in
      if 30 < elapsed p then [Print (TimedOut c)]
      else Print (Executed c)
           # (if stdout p \<noteq> [] then [Print (Output (strip (stdout p)))] else [])
           @ (if stderr p \<noteq> [] then [Print (Errors (strip (stderr p)))] else []))"

text \<open>
  The specification words the selection rule on the \<^emph>\<open>subject\<close> of a commit line, a line
  being \<^verbatim>\<open><short-hash> <subject>\<close>. The next three definitions follow the
  specification's words, to be compared with \<open>select_commit\<close>, which follows the source.
\<close>

definition subject :: "string \<Rightarrow> string" where
  "subject line = dropWhile isspace (dropWhile (\<lambda>c. \<not> isspace c) (dropWhile isspace line))"

definition spec_candidate :: "string \<Rightarrow> bool" where
  "spec_candidate line =
     (list_ex (\<lambda>keyword. contains (lower (subject line)) keyword) [''test'', ''feat:'', ''add'']
      \<and> \<not> contains (lower (subject line)) ''cargo.lock''
      \<and> \<not> contains (lower (subject line)) ''format'')"

definition spec_select_commit :: "string list \<Rightarrow> string option" where
  "spec_select_commit window =
     (case List.find spec_candidate window of
        None \<Rightarrow> None
      | Some line \<Rightarrow> (case split line of [] \<Rightarrow> None | t # _ \<Rightarrow> Some t))"

subsection \<open>Some worlds\<close>

definition exits :: "int \<Rightarrow> string \<Rightarrow> proc" where
  "exits rc out = \<lparr>elapsed = 0, returncode = rc, stdout = out, stderr = []\<rparr>"

definition scripted :: "proc \<Rightarrow> proc \<Rightarrow> proc \<Rightarrow> world" where
  \<comment> \<open>the answers of \<^verbatim>\<open>git log\<close>, of \<^verbatim>\<open>git cherry-pick abc1234\<close> and of
      \<^verbatim>\<open>git cherry-pick --continue\<close>; every other command exits with 0 at once\<close>
  "scripted logged picked continued =
     \<lparr>respond = (\<lambda>k c. if startswith c ''git log'' then logged
                         else if c = ''git cherry-pick abc1234'' then picked
                         else if c = ''git cherry-pick --continue'' then continued
                         else exits 0 []),
      is_dir = (\<lambda>d. True)\<rparr>"

definition all_quiet :: world where
  "all_quiet = scripted (exits 0 []) (exits 0 []) (exits 0 [])"


definition lockfile_only :: world where
  "lockfile_only = scripted (exits 0 ''def5678 chore: bump Cargo.lock'') (exits 0 []) (exits 0 [])"

definition clean_pick :: world where
  "clean_pick = scripted (exits 0 ''abc1234 feat: add integration tests'') (exits 0 []) (exits 0 [])"

definition conflict :: "bool \<Rightarrow> world" where
  \<comment> \<open>the pick fails; \<open>resolved\<close> says whether the continuation succeeds\<close>
  "conflict resolved =
     scripted (exits 0 ''abc1234 feat: add integration tests'') (exits 1 [])
       (exits (if resolved then 0 else 1) [])"

definition slow_log :: world where
  \<comment> \<open>\<^verbatim>\<open>git log\<close> needs 31 units\<close>
  "slow_log =
     scripted ((exits 0 ''abc1234 feat: add integration tests'')\<lparr>elapsed := 31\<rparr>)
       (exits 0 []) (exits 0 [])"

section \<open>Facts about the strings\<close>

lemma isspace_lower_chr: "isspace c \<Longrightarrow> lower_chr c = c"
  by (auto simp: isspace_def lower_chr_def Let_def)

lemma startswith_hd: "startswith s (p # ps) \<Longrightarrow> p \<in> set s"
  by (cases s) auto

lemma contains_hd: "contains s (p # ps) \<Longrightarrow> p \<in> set s"
  by (induction s) (auto dest: startswith_hd)

lemma split_ws_not_Nil: "cur \<noteq> [] \<or> (\<exists>c\<in>set s. \<not> isspace c) \<Longrightarrow> split_ws cur s \<noteq> []"
  by (induction s arbitrary: cur) auto

lemma split_ws_token: "t \<in> set (split_ws cur s) \<Longrightarrow> t \<noteq> []"
  by (induction s arbitrary: cur) (auto split: if_splits)

lemma has_keyword_visible: "has_keyword commit \<Longrightarrow> \<exists>c\<in>set commit. \<not> isspace c"
proof -
  assume "has_keyword commit"
  then consider "CHR ''t'' \<in> set (lower commit)" | "CHR ''f'' \<in> set (lower commit)"
    | "CHR ''a'' \<in> set (lower commit)"
    by (auto simp: has_keyword_def dest: contains_hd)
  then obtain c where c: "c \<in> set commit" "lower_chr c \<in> {CHR ''t'', CHR ''f'', CHR ''a''}"
    by cases (auto simp: lower_def)
  have "\<not> isspace c"
  proof
    assume sp: "isspace c"
    with c(2) have "c \<in> {CHR ''t'', CHR ''f'', CHR ''a''}" by (simp add: isspace_lower_chr)
    with sp show False by (auto simp: isspace_def)
  qed
  with c(1) show ?thesis by blast
qed

lemma has_keyword_first_token:
  "has_keyword commit \<Longrightarrow> \<exists>t. first_token commit = Inr t \<and> t \<noteq> []"
proof -
  assume "has_keyword commit"
  then have "split commit \<noteq> []"
    unfolding split_def by (intro split_ws_not_Nil disjI2 has_keyword_visible)
  then obtain t ts where ts: "split commit = t # ts" by (cases "split commit") auto
  then have "t \<in> set (split_ws [] commit)" by (simp add: split_def)
  then have "t \<noteq> []" by (rule split_ws_token)
  with ts show ?thesis by (simp add: first_token_def)
qed

lemmas strs = has_keyword_def not_excluded_def first_token_def split_def lower_def lower_chr_def
  isspace_def lines_of_def strip_def

section \<open>Facts about the selection loop\<close>

lemma select_commit_total: "\<exists>r. select_commit commits = Inr r"
  by (induction commits) (auto dest: has_keyword_first_token)

lemma select_commit_token: "select_commit commits = Inr (Some h) \<Longrightarrow> h \<noteq> []"
  by (induction commits) (auto dest: has_keyword_first_token split: if_splits)

lemma select_commit_None:
  "select_commit commits = Inr None \<longleftrightarrow> (\<forall>c\<in>set commits. \<not> candidate c)"
  by (induction commits) (auto simp: candidate_def dest: has_keyword_first_token split: if_splits)

lemma truthy_selected: "select_commit commits = Inr (Some h) \<Longrightarrow> truthy (Some h)"
  by (simp add: truthy_def select_commit_token)

lemma select_commit_find:
  "select_commit commits =
     (case List.find candidate commits of
        None \<Rightarrow> Inr None
      | Some c \<Rightarrow> (case first_token c of Inl e \<Rightarrow> Inl e | Inr t \<Rightarrow> Inr (Some t)))"
  by (induction commits) (auto simp: candidate_def)

lemma select_commit_Some_iff:
  "select_commit commits = Inr (Some h) \<longleftrightarrow>
     (\<exists>i<length commits. candidate (commits ! i) \<and> (\<forall>j<i. \<not> candidate (commits ! j))
        \<and> first_token (commits ! i) = Inr h)"
proof
  assume "select_commit commits = Inr (Some h)"
  then obtain c where c: "List.find candidate commits = Some c" "first_token c = Inr h"
    by (auto simp: select_commit_find split: option.splits sum.splits)
  from c(1) obtain i where "i < length commits" "candidate (commits ! i)" "c = commits ! i"
    "\<forall>j<i. \<not> candidate (commits ! j)"
    unfolding find_Some_iff by blast
  with c(2) show "\<exists>i<length commits. candidate (commits ! i) \<and> (\<forall>j<i. \<not> candidate (commits ! j))
        \<and> first_token (commits ! i) = Inr h"
    by blast
next
  assume "\<exists>i<length commits. candidate (commits ! i) \<and> (\<forall>j<i. \<not> candidate (commits ! j))
        \<and> first_token (commits ! i) = Inr h"
  then obtain i where i: "i < length commits" "candidate (commits ! i)"
    "\<forall>j<i. \<not> candidate (commits ! j)" "first_token (commits ! i) = Inr h"
    by blast
  then have "List.find candidate commits = Some (commits ! i)"
    unfolding find_Some_iff by blast
  with i(4) show "select_commit commits = Inr (Some h)"
    by (simp add: select_commit_find)
qed

section \<open>Facts about the actions\<close>

lemma spawned_append: "spawned (a @ b) = spawned a @ spawned b"
  by (induction a rule: spawned.induct) auto

lemma spawned_report: "spawned (report w k c) = []"
  by (simp add: report_def Let_def)


lemma spawned_listed: "spawned (map (\<lambda>c. Print (Listed c)) cs) = []"
  by (induction cs) auto

lemma run_cmd_eq:
  "run_cmd w c s =
     (Inr (succeeds w (length (spawned s)) c),
      s @ Spawn c (Some 30) # report w (length (spawned s)) c)"
  by (auto simp: run_cmd_def subprocess_run_def and_then_def print_def return_def succeeds_def
      report_def Let_def)

lemma print_commits_eq: "print_commits cs s = (Inr (), s @ map (\<lambda>c. Print (Listed c)) cs)"
  by (induction cs arbitrary: s) (auto simp: and_then_def print_def return_def)

lemma and_then_print: "and_then (print m) f s = f () (s @ [Print m])"
  by (simp add: and_then_def print_def)

lemma and_then_return: "and_then (return x) f s = f x s"
  by (simp add: and_then_def return_def)

lemma and_then_run_cmd:
  "and_then (run_cmd w c) f s =
     f (succeeds w (length (spawned s)) c)
       (s @ Spawn c (Some 30) # report w (length (spawned s)) c)"
  by (simp add: and_then_def run_cmd_eq)

lemma and_then_log:
  "and_then (subprocess_run w c None) f s =
     f (respond w (length (spawned s)) c) (s @ [Spawn c None])"
  by (simp add: and_then_def subprocess_run_def Let_def)

lemma and_then_print_commits:
  "and_then (print_commits cs) f s = f () (s @ map (\<lambda>c. Print (Listed c)) cs)"
  by (simp add: and_then_def print_commits_eq)

lemma and_then_if:
  "and_then (if c then m else m') f s = (if c then and_then m f s else and_then m' f s)"
  by simp

lemma and_then_assoc: "and_then (and_then m f) g = and_then m (\<lambda>x. and_then (f x) g)"
  by (auto simp: and_then_def fun_eq_iff split: prod.splits sum.splits)

lemma and_then_lift: "and_then (lift (Inr x)) f s = f x s"
  by (simp add: and_then_def lift_def)

lemma and_then_chdir: "is_dir w d \<Longrightarrow> and_then (os_chdir w d) f s = f () (s @ [Chdir d])"
  by (simp add: and_then_def os_chdir_def)

lemma return_apply: "return x s = (Inr x, s)"
  by (simp add: return_def)

lemma print_apply: "print m s = (Inr (), s @ [Print m])"
  by (simp add: print_def)

lemma plus_3: "n + 3 = Suc (Suc (Suc n))"
  by simp

lemma plus_6: "n + 6 = Suc (Suc (Suc (Suc (Suc (Suc n)))))"
  by simp

lemmas step = and_then_assoc and_then_lift and_then_print and_then_return and_then_run_cmd
  and_then_log and_then_print_commits and_then_if return_apply print_apply Let_def plus_3 plus_6

lemmas cmds = commands_def spawned_append spawned_report spawned_listed

lemmas run = main_def driver_def remaining_branches_def repair_def replay_def publish_def
  log_command_def truthy_def and_then_chdir succeeds_def

lemmas worlds = scripted_def exits_def







lemma repair_seed: "repair w (b, seed) = repair w (b, seed')"
  by (simp add: repair_def)

section \<open>The claims\<close>

subsection \<open>Selection\<close>

text \<open>
  C1, as the specification words it: the selected commit is the first line whose
  \<^emph>\<open>subject\<close> holds a keyword and no excluded word. The loop tests the whole line, hash
  included, and a short hash is a hexadecimal word that can read \<^verbatim>\<open>add\<close>: in the window
  below the loop selects \<^verbatim>\<open>add1234\<close>, whose subject has no keyword, where the rule on
  subjects selects \<^verbatim>\<open>abc1234\<close>.
\<close>

theorem subject_rule_counterexample:
  "select_commit [''add1234 chore: bump version'', ''abc1234 feat: new tests'']
     = Inr (Some ''add1234'')
   \<and> spec_select_commit [''add1234 chore: bump version'', ''abc1234 feat: new tests'']
     = Some ''abc1234''"
  by (simp add: spec_select_commit_def spec_candidate_def subject_def strs)

text \<open>
  C1, amended: for every log window, the commit selected is the first whitespace-separated
  token of the first line, scanning newest first, whose whole text (the hash token
  included) contains one of \<^verbatim>\<open>test\<close>, \<^verbatim>\<open>feat:\<close>, \<^verbatim>\<open>add\<close> and neither \<^verbatim>\<open>cargo.lock\<close> nor
  \<^verbatim>\<open>format\<close>, case-insensitively; no commit is selected exactly when no line is such a
  line. For the window made of \<^verbatim>\<open>abc1234 feat: add integration tests\<close> and
  \<^verbatim>\<open>def5678 chore: bump Cargo.lock\<close>, in either order, it is \<^verbatim>\<open>abc1234\<close>.
\<close>

theorem select_commit_first_candidate_line:
  "(select_commit commits = Inr (Some h) \<longleftrightarrow>
      (\<exists>i<length commits. candidate (commits ! i) \<and> (\<forall>j<i. \<not> candidate (commits ! j))
         \<and> first_token (commits ! i) = Inr h))
   \<and> (select_commit commits = Inr None \<longleftrightarrow> (\<forall>c\<in>set commits. \<not> candidate c))
   \<and> select_commit [''abc1234 feat: add integration tests'', ''def5678 chore: bump Cargo.lock'']
       = Inr (Some ''abc1234'')
   \<and> select_commit [''def5678 chore: bump Cargo.lock'', ''abc1234 feat: add integration tests'']
       = Inr (Some ''abc1234'')"
proof (intro conjI)
  show "select_commit commits = Inr (Some h) \<longleftrightarrow>
      (\<exists>i<length commits. candidate (commits ! i) \<and> (\<forall>j<i. \<not> candidate (commits ! j))
         \<and> first_token (commits ! i) = Inr h)"
    by (rule select_commit_Some_iff)
  show "select_commit commits = Inr None \<longleftrightarrow> (\<forall>c\<in>set commits. \<not> candidate c)"
    by (rule select_commit_None)
  show "select_commit [''abc1234 feat: add integration tests'', ''def5678 chore: bump Cargo.lock'']
       = Inr (Some ''abc1234'')"
    by (simp add: strs)
  show "select_commit [''def5678 chore: bump Cargo.lock'', ''abc1234 feat: add integration tests'']
       = Inr (Some ''abc1234'')"
    by (simp add: strs)
qed

theorem select_commit_first_candidate_line_witness:
  "\<exists>i<length [''def5678 chore: bump Cargo.lock'', ''abc1234 feat: add integration tests''].
      candidate ([''def5678 chore: bump Cargo.lock'', ''abc1234 feat: add integration tests''] ! i)
      \<and> (\<forall>j<i. \<not> candidate
            ([''def5678 chore: bump Cargo.lock'', ''abc1234 feat: add integration tests''] ! j))
      \<and> first_token
           ([''def5678 chore: bump Cargo.lock'', ''abc1234 feat: add integration tests''] ! i)
          = Inr ''abc1234''"
proof -
  have "select_commit [''def5678 chore: bump Cargo.lock'', ''abc1234 feat: add integration tests'']
       = Inr (Some ''abc1234'')"
    by (simp add: strs)
  with select_commit_first_candidate_line
    [of "[''def5678 chore: bump Cargo.lock'', ''abc1234 feat: add integration tests'']" "''abc1234''"]
  show ?thesis by blast
qed

text \<open>
  C10: a line that passes the keyword tests is not empty and splits into at least one
  token, so that taking the first token gives a (non-empty) hash and raises nothing; the
  selection loop therefore never raises, and on the window of an empty output it selects
  no commit.
\<close>

theorem candidate_line_has_first_token:
  assumes "candidate commit"
  shows "commit \<noteq> [] \<and> split commit \<noteq> [] \<and> (\<exists>t. first_token commit = Inr t \<and> t \<noteq> [])
         \<and> (\<exists>r. select_commit commits = Inr r)
         \<and> select_commit (lines_of []) = Inr None"
proof -
  from assms have k: "has_keyword commit" by (simp add: candidate_def)
  from has_keyword_first_token [OF k] obtain t where t: "first_token commit = Inr t" "t \<noteq> []"
    by blast
  then have "split commit \<noteq> []" by (auto simp: first_token_def)
  moreover from this have "commit \<noteq> []" by (auto simp: split_def)
  moreover have "select_commit (lines_of []) = Inr None" by (simp add: strs)
  ultimately show ?thesis using t select_commit_total by blast
qed

theorem candidate_line_has_first_token_witness:
  "candidate ''abc1234 feat: add integration tests''
   \<and> first_token ''abc1234 feat: add integration tests'' = Inr ''abc1234''"
proof -
  have c: "candidate ''abc1234 feat: add integration tests''"
    by (simp add: candidate_def strs)
  from candidate_line_has_first_token [OF c] c show ?thesis
    by (simp add: strs)
qed

subsection \<open>One branch\<close>

text \<open>
  In the statements below \<open>s\<close> is everything done before the branch \<open>b\<close> is taken up, so
  that the log command of \<open>b\<close> is command number \<open>length (spawned s) + 2\<close>, the pick number
  \<open>+ 3\<close> and the continuation number \<open>+ 6\<close>.
\<close>



text \<open>
  C4: when the log command succeeds and no line of its window passes the keyword tests,
  the branch is abandoned after the log command: no cherry-pick, no push, and the
  \<^verbatim>\<open>-clean\<close> branch created before is not deleted.
\<close>

theorem no_candidate_abandons_branch:
  assumes "returncode (respond w (length (spawned s) + 2) (log_command b)) = 0"
    and "\<forall>c \<in> set (lines_of (stdout (respond w (length (spawned s) + 2) (log_command b)))).
           \<not> candidate c"
  shows "fst (repair w (b, seed) s) = Inr () \<and>
         commands (snd (repair w (b, seed) s)) = commands s @
           [''git branch -D '' @ b @ ''-clean 2>/dev/null || true'',
            ''git checkout -b '' @ b @ ''-clean'',
            log_command b]"
proof -
  have "select_commit (lines_of (stdout (respond w (length (spawned s) + 2) (log_command b))))
          = Inr None"
    using assms(2) by (simp only: select_commit_None)
  with assms(1) show ?thesis
    by (simp add: repair_def replay_def step cmds truthy_def)
qed

theorem no_candidate_abandons_branch_witness:
  "returncode (respond lockfile_only (length (spawned []) + 2)
      (log_command ''feature/add-integration-tests'')) = 0
   \<and> lines_of (stdout (respond lockfile_only (length (spawned []) + 2)
          (log_command ''feature/add-integration-tests''))) = [''def5678 chore: bump Cargo.lock'']
   \<and> \<not> candidate ''def5678 chore: bump Cargo.lock''
   \<and> commands (snd (repair lockfile_only (''feature/add-integration-tests'', ''69f2d0a'') [])) =
       [''git branch -D feature/add-integration-tests-clean 2>/dev/null || true'',
        ''git checkout -b feature/add-integration-tests-clean'',
        ''git log --oneline origin/feature/add-integration-tests | head -10'']"
proof -
  have h1: "returncode (respond lockfile_only (length (spawned []) + 2)
      (log_command ''feature/add-integration-tests'')) = 0"
    by (simp add: worlds lockfile_only_def log_command_def)
  have w: "lines_of (stdout (respond lockfile_only (length (spawned []) + 2)
          (log_command ''feature/add-integration-tests''))) = [''def5678 chore: bump Cargo.lock'']"
    by (simp add: worlds lockfile_only_def log_command_def strs)
  have c: "\<not> candidate ''def5678 chore: bump Cargo.lock''"
    by (simp add: candidate_def strs)
  have h2: "\<forall>c \<in> set (lines_of (stdout (respond lockfile_only (length (spawned []) + 2)
          (log_command ''feature/add-integration-tests'')))). \<not> candidate c"
    unfolding w using c by simp
  from no_candidate_abandons_branch [OF h1 h2, of "''69f2d0a''"] h1 w c show ?thesis
    by (simp add: commands_def log_command_def)
qed

text \<open>
  C3: when the pick of the selected commit fails (non-zero exit code or timeout), the
  driver takes the incoming Cargo.lock, stages it and continues the pick. If the
  continuation succeeds the branch is published; if it fails the driver aborts the pick
  and leaves the branch: no checkout of the branch, no hard reset, no push.
\<close>

theorem failed_pick_resolution_policy:
  assumes "returncode (respond w (length (spawned s) + 2) (log_command b)) = 0"
    and "select_commit (lines_of (stdout (respond w (length (spawned s) + 2) (log_command b))))
           = Inr (Some h)"
    and "\<not> succeeds w (length (spawned s) + 3) (''git cherry-pick '' @ h)"
  shows "fst (repair w (b, seed) s) = Inr () \<and>
         commands (snd (repair w (b, seed) s)) = commands s @
           [''git branch -D '' @ b @ ''-clean 2>/dev/null || true'',
            ''git checkout -b '' @ b @ ''-clean'',
            log_command b,
            ''git cherry-pick '' @ h,
            ''git checkout --theirs Cargo.lock || true'',
            ''git add Cargo.lock || true'',
            ''git cherry-pick --continue''] @
           (if succeeds w (length (spawned s) + 6) ''git cherry-pick --continue''
            then [''git checkout '' @ b,
                  ''git reset --hard '' @ b @ ''-clean'',
                  ''git push --force origin '' @ b,
                  ''git branch -D '' @ b @ ''-clean'',
                  ''git checkout main'']
            else [''git cherry-pick --abort''])"
  using assms truthy_selected [OF assms(2)]
  by (simp add: repair_def replay_def publish_def step cmds)

theorem failed_pick_resolution_policy_witness:
  "returncode (respond (conflict False) (length (spawned []) + 2)
      (log_command ''feature/add-integration-tests'')) = 0
   \<and> select_commit (lines_of (stdout (respond (conflict False) (length (spawned []) + 2)
        (log_command ''feature/add-integration-tests'')))) = Inr (Some ''abc1234'')
   \<and> \<not> succeeds (conflict False) (length (spawned []) + 3) (''git cherry-pick '' @ ''abc1234'')
   \<and> commands (snd (repair (conflict False) (''feature/add-integration-tests'', ''69f2d0a'') [])) =
       [''git branch -D feature/add-integration-tests-clean 2>/dev/null || true'',
        ''git checkout -b feature/add-integration-tests-clean'',
        ''git log --oneline origin/feature/add-integration-tests | head -10'',
        ''git cherry-pick abc1234'',
        ''git checkout --theirs Cargo.lock || true'',
        ''git add Cargo.lock || true'',
        ''git cherry-pick --continue'',
        ''git cherry-pick --abort'']"
proof -
  have h1: "returncode (respond (conflict False) (length (spawned []) + 2)
      (log_command ''feature/add-integration-tests'')) = 0"
    by (simp add: worlds conflict_def log_command_def)
  have h2: "select_commit (lines_of (stdout (respond (conflict False) (length (spawned []) + 2)
        (log_command ''feature/add-integration-tests'')))) = Inr (Some ''abc1234'')"
    by (simp add: worlds conflict_def log_command_def strs)
  have h3: "\<not> succeeds (conflict False) (length (spawned []) + 3) (''git cherry-pick '' @ ''abc1234'')"
    by (simp add: worlds conflict_def succeeds_def)
  have h4: "\<not> succeeds (conflict False) (length (spawned []) + 6) ''git cherry-pick --continue''"
    by (simp add: worlds conflict_def succeeds_def)
  from failed_pick_resolution_policy [OF h1 h2 h3, of "''69f2d0a''"] h1 h2 h3 h4 show ?thesis
    by (simp add: commands_def log_command_def)
qed

text \<open>
  C7: when the replay succeeds (the pick succeeds, or the pick fails and the continuation
  after the Cargo.lock resolution succeeds), the driver then issues, in this order and
  whatever each of them returns: the checkout of the branch, the hard reset to its
  \<^verbatim>\<open>-clean\<close> branch, the force-push to origin, the deletion of the \<^verbatim>\<open>-clean\<close> branch and
  the checkout of main; only then does the loop go on with the pairs that remain.
\<close>

theorem successful_replay_publishes_in_order:
  assumes "returncode (respond w (length (spawned s) + 2) (log_command b)) = 0"
    and "select_commit (lines_of (stdout (respond w (length (spawned s) + 2) (log_command b))))
           = Inr (Some h)"
    and "succeeds w (length (spawned s) + 3) (''git cherry-pick '' @ h)
         \<or> succeeds w (length (spawned s) + 6) ''git cherry-pick --continue''"
  shows "\<exists>s'. repair w (b, seed) s = (Inr (), s') \<and>
         commands s' = commands s @
           [''git branch -D '' @ b @ ''-clean 2>/dev/null || true'',
            ''git checkout -b '' @ b @ ''-clean'',
            log_command b,
            ''git cherry-pick '' @ h] @
           (if succeeds w (length (spawned s) + 3) (''git cherry-pick '' @ h) then []
            else [''git checkout --theirs Cargo.lock || true'',
                  ''git add Cargo.lock || true'',
                  ''git cherry-pick --continue'']) @
           [''git checkout '' @ b,
            ''git reset --hard '' @ b @ ''-clean'',
            ''git push --force origin '' @ b,
            ''git branch -D '' @ b @ ''-clean'',
            ''git checkout main''] \<and>
         repair_each w ((b, seed) # rest) s = repair_each w rest s'"
  using assms truthy_selected [OF assms(2)]
  by (auto simp add: repair_def replay_def publish_def step cmds)

theorem successful_replay_publishes_in_order_witness:
  "returncode (respond (conflict True) (length (spawned []) + 2)
      (log_command ''feature/add-integration-tests'')) = 0
   \<and> select_commit (lines_of (stdout (respond (conflict True) (length (spawned []) + 2)
        (log_command ''feature/add-integration-tests'')))) = Inr (Some ''abc1234'')
   \<and> succeeds (conflict True) (length (spawned []) + 6) ''git cherry-pick --continue''
   \<and> (\<exists>s'. repair (conflict True) (''feature/add-integration-tests'', ''69f2d0a'') [] = (Inr (), s')
        \<and> commands s' =
       [''git branch -D feature/add-integration-tests-clean 2>/dev/null || true'',
        ''git checkout -b feature/add-integration-tests-clean'',
        ''git log --oneline origin/feature/add-integration-tests | head -10'',
        ''git cherry-pick abc1234'',
        ''git checkout --theirs Cargo.lock || true'',
        ''git add Cargo.lock || true'',
        ''git cherry-pick --continue'',
        ''git checkout feature/add-integration-tests'',
        ''git reset --hard feature/add-integration-tests-clean'',
        ''git push --force origin feature/add-integration-tests'',
        ''git branch -D feature/add-integration-tests-clean'',
        ''git checkout main''])"
proof -
  have h1: "returncode (respond (conflict True) (length (spawned []) + 2)
      (log_command ''feature/add-integration-tests'')) = 0"
    by (simp add: worlds conflict_def log_command_def)
  have h2: "select_commit (lines_of (stdout (respond (conflict True) (length (spawned []) + 2)
        (log_command ''feature/add-integration-tests'')))) = Inr (Some ''abc1234'')"
    by (simp add: worlds conflict_def log_command_def strs)
  have h3: "succeeds (conflict True) (length (spawned []) + 6) ''git cherry-pick --continue''"
    by (simp add: worlds conflict_def succeeds_def)
  have h4: "\<not> succeeds (conflict True) (length (spawned []) + 3) (''git cherry-pick '' @ ''abc1234'')"
    by (simp add: worlds conflict_def succeeds_def)
  from successful_replay_publishes_in_order [OF h1 h2 disjI2 [OF h3], of "''69f2d0a''" "[]"]
  obtain s' where "repair (conflict True) (''feature/add-integration-tests'', ''69f2d0a'') []
        = (Inr (), s')"
    and "commands s' = commands [] @
           [''git branch -D '' @ ''feature/add-integration-tests'' @ ''-clean 2>/dev/null || true'',
            ''git checkout -b '' @ ''feature/add-integration-tests'' @ ''-clean'',
            log_command ''feature/add-integration-tests'',
            ''git cherry-pick '' @ ''abc1234''] @
           (if succeeds (conflict True) (length (spawned []) + 3) (''git cherry-pick '' @ ''abc1234'')
            then []
            else [''git checkout --theirs Cargo.lock || true'',
                  ''git add Cargo.lock || true'',
                  ''git cherry-pick --continue'']) @
           [''git checkout '' @ ''feature/add-integration-tests'',
            ''git reset --hard '' @ ''feature/add-integration-tests'' @ ''-clean'',
            ''git push --force origin '' @ ''feature/add-integration-tests'',
            ''git branch -D '' @ ''feature/add-integration-tests'' @ ''-clean'',
            ''git checkout main'']"
    by blast
  with h1 h2 h3 h4 show ?thesis
    by (simp add: commands_def log_command_def)
qed

subsection \<open>The whole run\<close>

text \<open>
  C5, on the code: the claim asks for a \<^verbatim>\<open>git checkout main\<close> between the end of one branch
  and the first command of the next. The driver issues it once before the loop and at the
  end of a branch that reaches the publication, and the two \<^verbatim>\<open>continue\<close> of lines 77 and
  80 leave the loop body before it. In a world where every command succeeds and prints
  nothing, the first branch is abandoned at line 80 and the second one starts, with its
  branch deletion and its \<^verbatim>\<open>checkout -b\<close>, right after the log command of the first.
\<close>

theorem abandoned_branch_skips_checkout_main:
  "commands (snd (main all_quiet [])) =
     [''git checkout main'',
      ''git branch -D feature/add-server-components-tests-clean 2>/dev/null || true'',
      ''git checkout -b feature/add-server-components-tests-clean'',
      ''git log --oneline origin/feature/add-server-components-tests | head -10'',
      ''git branch -D feature/add-integration-tests-clean 2>/dev/null || true'',
      ''git checkout -b feature/add-integration-tests-clean'',
      ''git log --oneline origin/feature/add-integration-tests | head -10'']"
  by (simp add: run step cmds strs worlds all_quiet_def)

text \<open>
  C6, on the code: the claim asks for the 30 units of timeout on every command. The
  commands that go through \<open>run_cmd\<close> have it; the log command of line 46 is run with no
  timeout at all. In a world where it needs 31 units it is not a failure: its output is
  read and the commit it lists is picked.
\<close>

theorem log_runs_without_timeout:
  "take 5 (spawned (snd (main slow_log []))) =
     [(''git checkout main'', Some 30),
      (''git branch -D feature/add-server-components-tests-clean 2>/dev/null || true'', Some 30),
      (''git checkout -b feature/add-server-components-tests-clean'', Some 30),
      (''git log --oneline origin/feature/add-server-components-tests | head -10'', None),
      (''git cherry-pick abc1234'', Some 30)]"
  by (simp add: run step cmds strs worlds slow_log_def)

text \<open>
  C8: the seed commit of a pair is never read: two tables with the same branch names, in
  the same order, give the same run, with the same effects and the same result, in every
  world and from every starting point.
\<close>

theorem seed_commit_unused:
  assumes "map fst branches = map fst branches'"
  shows "driver w branches s = driver w branches' s"
proof -
  from assms have "repair_each w branches = repair_each w branches'"
  proof (induction branches arbitrary: branches')
    case Nil
    then show ?case by simp
  next
    case (Cons p ps)
    then obtain q qs where q: "branches' = q # qs" "fst p = fst q" "map fst ps = map fst qs"
      by (cases branches') auto
    from q(2) have "repair w p = repair w q"
      by (cases p; cases q) (simp add: repair_seed)
    with Cons.IH [OF q(3)] q(1) show ?case by simp
  qed
  then show ?thesis by (simp add: driver_def)
qed

theorem seed_commit_unused_witness:
  "map fst remaining_branches
     = map fst [(''feature/add-server-components-tests'', ''0000000''),
                (''feature/add-integration-tests'', ''fffffff'')]
   \<and> main clean_pick []
     = driver clean_pick [(''feature/add-server-components-tests'', ''0000000''),
                          (''feature/add-integration-tests'', ''fffffff'')] []"
proof -
  have h: "map fst remaining_branches
     = map fst [(''feature/add-server-components-tests'', ''0000000''),
                (''feature/add-integration-tests'', ''fffffff'')]"
    by (simp add: remaining_branches_def)
  from seed_commit_unused [OF h, of clean_pick "[]"] h show ?thesis
    by (simp add: main_def)
qed



end
